theory Spec2Isabelle
  imports Main "HOL-Library.AList"
begin

section \<open>The metric catalog of control/metrics.go\<close>

text \<open>
  The development embeds the metric catalog (file control/metrics.go) shallowly.
  Go strings are byte strings and are modelled as \<open>string\<close>; Go's \<open>int\<close> is
  modelled as \<open>int\<close> (version numbers, the subscription counter and the iterator
  cursor stay far below the 63-bit range in which the two agree); a pointer that can be
  nil is an \<open>option\<close>; a Go panic is a value of the error type.
\<close>

subsection \<open>Errors\<close>

datatype error =
    ErrMetricNotFound
  | ErrorMetricNotFound "string list" "int option"
  | ErrNegativeSubCount
  | ErrorMetricContainsNotAllowedChars "string list"
  | ErrorMetricEndsWithAsterisk "string list"
  | ErrConfigPolicyNil
  | PanicIndexOutOfRange
  | PanicNilDereference

text \<open>The error kinds of the specification, as predicates on the errors of the code.\<close>

fun isPanic :: "error \<Rightarrow> bool" where
  "isPanic PanicIndexOutOfRange = True"
| "isPanic PanicNilDereference = True"
| "isPanic _ = False"


fun isMetricNotFound :: "error \<Rightarrow> bool" where
  "isMetricNotFound ErrMetricNotFound = True"
| "isMetricNotFound (ErrorMetricNotFound ns ver) = True"
| "isMetricNotFound _ = False"

subsection \<open>The functions of package strings that the catalog calls\<close>

text \<open>\<open>strings.Join(elems, sep)\<close>.\<close>

fun strings_Join :: "string list \<Rightarrow> string \<Rightarrow> string" where
  "strings_Join [] sep = []"
| "strings_Join [x] sep = x"
| "strings_Join (x # y # ys) sep = x @ sep @ strings_Join (y # ys) sep"

text \<open>
  \<open>strings.Split(s, sep)\<close> for a separator of one byte, the only way the catalog calls
  it: the result always has one element more than \<open>s\<close> has separators, so the empty
  string splits into one empty segment.
\<close>

fun strings_Split :: "string \<Rightarrow> char \<Rightarrow> string list" where
  "strings_Split [] sep = [[]]"
| "strings_Split (c # cs) sep =
     (if c = sep then [] # strings_Split cs sep
      else (case strings_Split cs sep of
              [] \<Rightarrow> [[c]]
            | seg # segs \<Rightarrow> (c # seg) # segs))"

text \<open>
  \<open>strings.Replace(s, old, new, -1)\<close> for an \<open>old\<close> of one byte: every occurrence
  is replaced.
\<close>

fun strings_Replace :: "string \<Rightarrow> char \<Rightarrow> string \<Rightarrow> string" where
  "strings_Replace [] old new = []"
| "strings_Replace (c # cs) old new =
     (if c = old then new @ strings_Replace cs old new
      else c # strings_Replace cs old new)"



subsection \<open>The namespace key codec\<close>

definition getMetricKey :: "string list \<Rightarrow> string" where
  "getMetricKey metric = strings_Join metric ''.''"

definition getMetricNamespace :: "string \<Rightarrow> string list" where
  "getMetricNamespace key = strings_Split key (CHR ''.'')"

subsection \<open>Plugins and metric entries\<close>

text \<open>
  Modelled from the spec: the type \<open>loadedPlugin\<close> is declared outside the given
  sources. The catalog reads its version (\<open>lp.Version()\<close>), tests its config policy
  against nil and compares plugins for identity; the name stands for the identity and
  the policy is a handle.
\<close>

record loadedPlugin =
  lp_Name :: string
  lp_Version :: int
  ConfigPolicy :: "nat option"

text \<open>
  The struct \<open>metricType\<close>. The fields policy, config, data, source, labels, tags and
  timestamp are carried along by the code and read by none of the operations below;
  they are left out.
\<close>

record metricType =
  Plugin :: "loadedPlugin option"
  namespace :: "string list"
  version :: int
  lastAdvertisedTime :: int
  subscriptions :: int


definition Subscribe :: "metricType \<Rightarrow> metricType" where
  "Subscribe m = m\<lparr>subscriptions := subscriptions m + 1\<rparr>"


definition SubscriptionCount :: "metricType \<Rightarrow> int" where
  "SubscriptionCount m = subscriptions m"

definition Version :: "metricType \<Rightarrow> int" where
  "Version m =
     (if version m > 0 then version m
      else (case Plugin m of None \<Rightarrow> - 1 | Some lp \<Rightarrow> lp_Version lp))"




subsection \<open>The trie store\<close>

text \<open>
  Modelled from the spec: the type \<open>MTTrie\<close> and its operations \<open>NewMTTrie\<close>,
  \<open>Add\<close>, \<open>Get\<close>, \<open>Remove\<close> and \<open>DeleteByPlugin\<close> (control/mttrie.go) are outside
  the given sources. Following the specification, the store is a prefix tree keyed by
  namespace segment; the node at the end of a namespace's path holds the versions
  registered for that namespace, each version mapped to one entry. A node's version
  map and its children are association lists in insertion order (the order in which Go
  would list a map is not fixed).
\<close>

datatype MTTrie =
  Node (mts: "(int \<times> metricType) list") (children: "(string \<times> MTTrie) list")

definition NewMTTrie :: MTTrie where
  "NewMTTrie = Node [] []"

definition childOf :: "MTTrie \<Rightarrow> string \<Rightarrow> MTTrie" where
  "childOf t s = (case map_of (children t) s of None \<Rightarrow> NewMTTrie | Some c \<Rightarrow> c)"

text \<open>
  Modelled from the spec: \<open>Add(entry)\<close> "inserts along the path of entry.namespace,
  creating intermediate nodes as needed; stores entry under its version at the terminal
  node. Idempotent per (namespace, version): re-adding overwrites."
\<close>

fun MTTrie_AddAt :: "string list \<Rightarrow> metricType \<Rightarrow> MTTrie \<Rightarrow> MTTrie" where
  "MTTrie_AddAt [] m t = Node (AList.update (Version m) m (mts t)) (children t)"
| "MTTrie_AddAt (s # ss) m t =
     Node (mts t) (AList.update s (MTTrie_AddAt ss m (childOf t s)) (children t))"

definition MTTrie_Add :: "metricType \<Rightarrow> MTTrie \<Rightarrow> MTTrie" where
  "MTTrie_Add m t = MTTrie_AddAt (namespace m) m t"

text \<open>The version map of the node at the end of a path, if the path exists.\<close>

fun MTTrie_find :: "MTTrie \<Rightarrow> string list \<Rightarrow> (int \<times> metricType) list option" where
  "MTTrie_find t [] = Some (mts t)"
| "MTTrie_find t (s # ss) =
     (case map_of (children t) s of None \<Rightarrow> None | Some c \<Rightarrow> MTTrie_find c ss)"

text \<open>
  Modelled from the spec: \<open>Get(namespace)\<close> is an "exact-path lookup; returns all
  versions at that terminal node, or a not-found error if the path does not terminate
  in a populated node."
\<close>

definition MTTrie_Get :: "MTTrie \<Rightarrow> string list \<Rightarrow> error + metricType list" where
  "MTTrie_Get t ns =
     (case MTTrie_find t ns of
        None \<Rightarrow> Inl (ErrorMetricNotFound ns None)
      | Some vs \<Rightarrow> if vs = [] then Inl (ErrorMetricNotFound ns None) else Inr (map snd vs))"

text \<open>
  Modelled from the spec: \<open>Remove(namespace)\<close> "deletes all versions at the exact
  terminal node; does not affect sibling/descendant nodes."
\<close>

fun MTTrie_Remove :: "string list \<Rightarrow> MTTrie \<Rightarrow> MTTrie" where
  "MTTrie_Remove [] t = Node [] (children t)"
| "MTTrie_Remove (s # ss) t =
     (case map_of (children t) s of
        None \<Rightarrow> t
      | Some c \<Rightarrow> Node (mts t) (AList.update s (MTTrie_Remove ss c) (children t)))"

text \<open>
  Modelled from the spec: \<open>DeleteByPlugin(plugin)\<close> "removes every entry anywhere in
  the tree whose owning plugin matches; prunes now-empty nodes."
\<close>

definition emptyNode :: "MTTrie \<Rightarrow> bool" where
  "emptyNode t = (mts t = [] \<and> children t = [])"

fun MTTrie_DeleteByPlugin :: "loadedPlugin \<Rightarrow> MTTrie \<Rightarrow> MTTrie" where
  "MTTrie_DeleteByPlugin lp (Node vs cs) =
     Node (filter (\<lambda>ve. Plugin (snd ve) \<noteq> Some lp) vs)
          (filter (\<lambda>sc. \<not> emptyNode (snd sc))
             (map (\<lambda>sc. (fst sc, MTTrie_DeleteByPlugin lp (snd sc))) cs))"

subsection \<open>The regular expressions that the catalog builds\<close>

text \<open>
  Go's standard package \<open>regexp\<close> is modelled on the expressions that
  \<open>addItemToMatchingMap\<close> builds from a query key holding no metacharacter besides
  \<open>.\<close> and \<open>*\<close>: after the leading \<open>^\<close>, a sequence of \<open>[.]\<close> (the byte
  \<open>.\<close>), \<open>.*\<close> (any run of characters other than newline) and plain bytes, closed
  by \<open>$\<close>. On every other expression \<open>regexp_MustCompile\<close> is \<open>None\<close>: the
  package would panic or match by rules that are not modelled.
\<close>

datatype rx = Lit char | AnyStar

definition regexpMeta :: string where
  "regexpMeta = [CHR 0x5C, CHR ''.'', CHR ''+'', CHR ''*'', CHR ''?'', CHR ''('', CHR '')'',
     CHR ''|'', CHR ''['', CHR '']'', CHR ''{'', CHR ''}'', CHR ''^'', CHR ''$'']"

fun parseBody :: "string \<Rightarrow> rx list option" where
  "parseBody [] = None"
| "parseBody (c # cs) =
     (if c = CHR ''$'' \<and> cs = [] then Some []
      else if c = CHR ''['' then
        (case cs of
           d # e # rest \<Rightarrow>
             if d = CHR ''.'' \<and> e = CHR '']''
             then map_option (Cons (Lit (CHR ''.''))) (parseBody rest) else None
         | _ \<Rightarrow> None)
      else if c = CHR ''.'' then
        (case cs of
           d # rest \<Rightarrow>
             if d = CHR ''*'' then map_option (Cons AnyStar) (parseBody rest) else None
         | [] \<Rightarrow> None)
      else if c \<in> set regexpMeta then None
      else map_option (Cons (Lit c)) (parseBody cs))"

definition regexp_MustCompile :: "string \<Rightarrow> rx list option" where
  "regexp_MustCompile str =
     (case str of [] \<Rightarrow> None | c # cs \<Rightarrow> if c = CHR ''^'' then parseBody cs else None)"

text \<open>Whether the anchored expression matches the whole of a string.\<close>

fun rxMatch :: "rx list \<Rightarrow> string \<Rightarrow> bool" where
  "rxMatch [] s = (s = [])"
| "rxMatch (Lit c # rs) s = (case s of [] \<Rightarrow> False | d # ds \<Rightarrow> c = d \<and> rxMatch rs ds)"
| "rxMatch (AnyStar # rs) s =
     (rxMatch rs s \<or>
      (case s of [] \<Rightarrow> False | d # ds \<Rightarrow> d \<noteq> CHR 0x0A \<and> rxMatch (AnyStar # rs) ds))"

subsection \<open>The catalog\<close>

text \<open>
  The struct \<open>metricCatalog\<close>, without its mutex: the model is sequential. The map
  \<open>mKeys\<close> is an association list; the loops over it visit each key once and change
  only the entry of the key they visit, so the order of the visit does not show.
\<close>

record metricCatalog =
  tree :: MTTrie
  keys :: "string list"
  mKeys :: "(string \<times> string list) list"
  currentIter :: int

definition newMetricCatalog :: metricCatalog where
  "newMetricCatalog = \<lparr>tree = NewMTTrie, keys = [], mKeys = [], currentIter = 0\<rparr>"

definition Keys :: "metricCatalog \<Rightarrow> string list" where
  "Keys mc = keys mc"

definition convertKeysToNamespaces :: "string list \<Rightarrow> string list list" where
  "convertKeysToNamespaces ks =
     foldl (\<lambda>nss key. let ns = getMetricNamespace key
                       in if length ns \<noteq> 0 then nss @ [ns] else nss) [] ks"

definition matchedNamespaces :: "metricCatalog \<Rightarrow> string \<Rightarrow> error + string list list" where
  "matchedNamespaces mc wkey =
     (let mkeys = (case map_of (mKeys mc) wkey of None \<Rightarrow> [] | Some ks \<Rightarrow> ks)
      in if length mkeys = 0 then Inl (ErrorMetricNotFound (getMetricNamespace wkey) None)
         else Inr (convertKeysToNamespaces mkeys))"

definition GetQueriedNamespaces :: "metricCatalog \<Rightarrow> string list \<Rightarrow> error + string list list" where
  "GetQueriedNamespaces mc ns = matchedNamespaces mc (getMetricKey ns)"

fun appendIfMissing :: "string list \<Rightarrow> string \<Rightarrow> string list" where
  "appendIfMissing [] ns = [ns]"
| "appendIfMissing (key # ks) ns =
     (if ns = key then key # ks else key # appendIfMissing ks ns)"

definition removeItemFromMatchingMap :: "metricCatalog \<Rightarrow> string \<Rightarrow> metricCatalog" where
  "removeItemFromMatchingMap mc wkey =
     (if map_of (mKeys mc) wkey \<noteq> None then mc\<lparr>mKeys := AList.delete wkey (mKeys mc)\<rparr>
      else mc)"

text \<open>
  \<open>addItemToMatchingMap\<close> is \<open>None\<close> when the expression built from the query key
  is outside the modelled expressions.
\<close>

definition addItemToMatchingMap :: "metricCatalog \<Rightarrow> string \<Rightarrow> metricCatalog option" where
  "addItemToMatchingMap mc wkey =
     (let exp = strings_Replace wkey (CHR ''.'') ''[.]'';
          exp = strings_Replace exp (CHR ''*'') ''.*''
      in case regexp_MustCompile (''^'' @ exp @ ''$'') of
           None \<Rightarrow> None
         | Some regex \<Rightarrow>
             (let matchedKeys =
                    foldl (\<lambda>matched key. if rxMatch regex key then appendIfMissing matched key
                                           else matched) [] (keys mc)
              in Some (if length matchedKeys = 0 then removeItemFromMatchingMap mc wkey
                       else mc\<lparr>mKeys := AList.update wkey matchedKeys (mKeys mc)\<rparr>)))"

definition MatchQuery ::
  "metricCatalog \<Rightarrow> string list \<Rightarrow> ((error + string list list) \<times> metricCatalog) option" where
  "MatchQuery mc ns =
     (let wkey = getMetricKey ns
      in case addItemToMatchingMap mc wkey of
           None \<Rightarrow> None
         | Some mc' \<Rightarrow> Some (matchedNamespaces mc' wkey, mc'))"

fun updateMatchingMapLoop :: "string list \<Rightarrow> metricCatalog \<Rightarrow> metricCatalog option" where
  "updateMatchingMapLoop [] mc = Some mc"
| "updateMatchingMapLoop (wkey # wkeys) mc =
     (case addItemToMatchingMap mc wkey of
        None \<Rightarrow> None
      | Some mc' \<Rightarrow> updateMatchingMapLoop wkeys mc')"

definition updateMatchingMap :: "metricCatalog \<Rightarrow> metricCatalog option" where
  "updateMatchingMap mc = updateMatchingMapLoop (map fst (mKeys mc)) mc"

text \<open>
  The inner loop of \<open>removeMatchedKey\<close> ranges over the slice \<open>mkeys\<close> as it was when
  the loop began, and \<open>append(mkeys[:index], mkeys[index+1:]...)\<close> writes into the
  array behind that slice: the elements after \<open>index\<close> move one place down and the last
  place keeps its element. The third argument is that array, as long as \<open>mkeys\<close>; the
  fourth is the value of \<open>mc.mKeys[wkey]\<close>.
\<close>

function removeMatchedKeyLoop :: "string \<Rightarrow> nat \<Rightarrow> string list \<Rightarrow> string list \<Rightarrow> string list" where
  "removeMatchedKeyLoop key index mkeys cur =
     (if index < length mkeys then
        (if mkeys ! index = key then
           (let shorter = take index mkeys @ drop (Suc index) mkeys
            in removeMatchedKeyLoop key (Suc index) (shorter @ [last mkeys]) shorter)
         else removeMatchedKeyLoop key (Suc index) mkeys cur)
      else cur)"
  by pat_completeness auto
termination
  by (relation "measure (\<lambda>(key, index, mkeys, cur). length mkeys - index)") auto

declare removeMatchedKeyLoop.simps [simp del]

definition removeMatchedKeyStep :: "string \<Rightarrow> string \<times> string list \<Rightarrow> metricCatalog \<Rightarrow> metricCatalog" where
  "removeMatchedKeyStep key entry mc =
     (let wkey = fst entry; mkeys = snd entry;
          mc1 = mc\<lparr>mKeys := AList.update wkey (removeMatchedKeyLoop key 0 mkeys mkeys) (mKeys mc)\<rparr>
      in if length (case map_of (mKeys mc1) wkey of None \<Rightarrow> [] | Some ks \<Rightarrow> ks) = 0
         then removeItemFromMatchingMap mc1 wkey else mc1)"

definition removeMatchedKey :: "metricCatalog \<Rightarrow> string \<Rightarrow> metricCatalog" where
  "removeMatchedKey mc key = fold (removeMatchedKeyStep key) (mKeys mc) mc"

subsection \<open>Validation and registration\<close>



definition Add :: "metricCatalog \<Rightarrow> metricType \<Rightarrow> metricCatalog" where
  "Add mc m =
     (let key = getMetricKey (namespace m);
          mc1 = mc\<lparr>keys := appendIfMissing (keys mc) key\<rparr>
      in mc1\<lparr>tree := MTTrie_Add m (tree mc1)\<rparr>)"



subsection \<open>Removal\<close>

definition RmUnloadedPluginMetrics :: "metricCatalog \<Rightarrow> loadedPlugin \<Rightarrow> metricCatalog option" where
  "RmUnloadedPluginMetrics mc lp =
     updateMatchingMap (mc\<lparr>tree := MTTrie_DeleteByPlugin lp (tree mc)\<rparr>)"

definition Remove :: "metricCatalog \<Rightarrow> string list \<Rightarrow> metricCatalog" where
  "Remove mc ns =
     (let mc1 = mc\<lparr>tree := MTTrie_Remove ns (tree mc)\<rparr>;
          key = getMetricKey ns
      in removeMatchedKey mc1 key)"

subsection \<open>Version resolution\<close>

definition getVersions :: "metricCatalog \<Rightarrow> string list \<Rightarrow> error + metricType list" where
  "getVersions mc ns =
     (case MTTrie_Get (tree mc) ns of
        Inl err \<Rightarrow> Inl err
      | Inr ms \<Rightarrow> if length ms = 0 then Inl (ErrorMetricNotFound ns None) else Inr ms)"

text \<open>\<open>getVersion\<close> calls \<open>m.Plugin.Version()\<close>, which panics on a nil plugin.\<close>

fun getVersion :: "metricType list \<Rightarrow> int \<Rightarrow> error + metricType" where
  "getVersion [] ver = Inl ErrMetricNotFound"
| "getVersion (m # c) ver =
     (case Plugin m of
        None \<Rightarrow> Inl PanicNilDereference
      | Some lp \<Rightarrow> if lp_Version lp = ver then Inr m else getVersion c ver)"

definition getLatest :: "metricType list \<Rightarrow> error + metricType" where
  "getLatest c =
     (case c of
        [] \<Rightarrow> Inl PanicIndexOutOfRange
      | c0 # rest \<Rightarrow> Inr (foldl (\<lambda>cur mt. if Version mt > Version cur then mt else cur) c0 c))"

definition get :: "metricCatalog \<Rightarrow> string list \<Rightarrow> int \<Rightarrow> error + metricType" where
  "get mc ns ver =
     (case getVersions mc ns of
        Inl err \<Rightarrow> Inl err
      | Inr ms \<Rightarrow>
          if ver > 0 then
            (case getVersion ms ver of
               Inl err \<Rightarrow> if isPanic err then Inl err else Inl (ErrorMetricNotFound ns (Some ver))
             | Inr l \<Rightarrow> Inr l)
          else getLatest ms)"


definition GetVersions :: "metricCatalog \<Rightarrow> string list \<Rightarrow> error + metricType list" where
  "GetVersions mc ns = getVersions mc ns"

subsection \<open>Subscriptions through the catalog\<close>

text \<open>
  \<open>get\<close> hands out a pointer to the entry that the trie holds, and \<open>Subscribe\<close> and
  \<open>Unsubscribe\<close> write through it: the entry read at the node of \<open>ns\<close> is replaced,
  where it stands, by the entry as the call leaves it.
\<close>

fun MTTrie_assign :: "string list \<Rightarrow> metricType \<Rightarrow> metricType \<Rightarrow> MTTrie \<Rightarrow> MTTrie" where
  "MTTrie_assign [] old new t =
     Node (map (\<lambda>ve. if snd ve = old then (fst ve, new) else ve) (mts t)) (children t)"
| "MTTrie_assign (s # ss) old new t =
     (case map_of (children t) s of
        None \<Rightarrow> t
      | Some c \<Rightarrow> Node (mts t) (AList.update s (MTTrie_assign ss old new c) (children t)))"

definition metricCatalog_Subscribe ::
  "metricCatalog \<Rightarrow> string list \<Rightarrow> int \<Rightarrow> error option \<times> metricCatalog" where
  "metricCatalog_Subscribe mc ns ver =
     (case get mc ns ver of
        Inl err \<Rightarrow> (Some err, mc)
      | Inr m \<Rightarrow> (None, mc\<lparr>tree := MTTrie_assign ns m (Subscribe m) (tree mc)\<rparr>))"


subsection \<open>The iterator\<close>

text \<open>
  \<open>Item\<close> indexes \<open>mc.keys\<close> at \<open>mc.currentIter - 1\<close>; Go panics when the index is
  negative or not below the length. The error of \<open>mc.tree.Get\<close> is dropped.
\<close>

definition Item :: "metricCatalog \<Rightarrow> error + (string \<times> metricType list)" where
  "Item mc =
     (let i = currentIter mc - 1
      in if i < 0 \<or> int (length (keys mc)) \<le> i then Inl PanicIndexOutOfRange
         else (let key = keys mc ! nat i;
                   ns = strings_Split key (CHR ''.'');
                   mtsi = (case MTTrie_Get (tree mc) ns of Inl err \<Rightarrow> [] | Inr ms \<Rightarrow> ms)
               in Inr (key, mtsi)))"

definition Next :: "metricCatalog \<Rightarrow> bool \<times> metricCatalog" where
  "Next mc =
     (let mc1 = mc\<lparr>currentIter := currentIter mc + 1\<rparr>
      in if currentIter mc1 > int (length (keys mc1)) then (False, mc1\<lparr>currentIter := 0\<rparr>)
         else (True, mc1))"

subsection \<open>Well-formed tries and the reading of a query key\<close>

text \<open>
  In a trie built by \<open>MTTrie_Add\<close> every node's version map has each version once and
  holds each entry under the entry's own \<open>Version\<close>.
\<close>

fun wfMTTrie :: "MTTrie \<Rightarrow> bool" where
  "wfMTTrie (Node vs cs) =
     (distinct (map fst vs) \<and> (\<forall>ve \<in> set vs. fst ve = Version (snd ve)) \<and>
      (\<forall>sc \<in> set cs. wfMTTrie (snd sc)))"

text \<open>
  A query key read as a pattern: \<open>*\<close> stands for any run of characters other than
  newline, every other character for itself.
\<close>

definition wildcardRx :: "string \<Rightarrow> rx list" where
  "wildcardRx wkey = map (\<lambda>c. if c = CHR ''*'' then AnyStar else Lit c) wkey"

text \<open>The metacharacters that put a query key outside the modelled expressions.\<close>

definition plainQueryKey :: "string \<Rightarrow> bool" where
  "plainQueryKey wkey =
     (\<forall>c \<in> set wkey. c = CHR ''.'' \<or> c = CHR ''*'' \<or> c \<notin> set regexpMeta)"

text \<open>The expression that \<open>addItemToMatchingMap\<close> builds from a query key.\<close>

definition queryExp :: "string \<Rightarrow> string" where
  "queryExp wkey = strings_Replace (strings_Replace wkey (CHR ''.'') ''[.]'') (CHR ''*'') ''.*''"

subsection \<open>Example data\<close>

definition mockPlugin :: loadedPlugin where
  "mockPlugin = \<lparr>lp_Name = ''mock'', lp_Version = 1, ConfigPolicy = Some 0\<rparr>"

definition nsFoo :: "string list" where
  "nsFoo = [''intel'', ''mock'', ''foo'']"

definition nsBar :: "string list" where
  "nsBar = [''intel'', ''mock'', ''bar'']"

definition nsQuery :: "string list" where
  "nsQuery = [''intel'', ''mock'', ''*'']"

definition fooV1 :: metricType where
  "fooV1 = \<lparr>Plugin = Some mockPlugin, namespace = nsFoo, version = 1,
            lastAdvertisedTime = 10, subscriptions = 0\<rparr>"

definition fooV2 :: metricType where
  "fooV2 = \<lparr>Plugin = Some mockPlugin, namespace = nsFoo, version = 2,
            lastAdvertisedTime = 20, subscriptions = 0\<rparr>"

definition barV1 :: metricType where
  "barV1 = \<lparr>Plugin = Some mockPlugin, namespace = nsBar, version = 1,
            lastAdvertisedTime = 30, subscriptions = 0\<rparr>"



text \<open>
  The catalog after \<open>foo\<close> is registered at versions 1 and 2, and the same catalog once
  the query \<open>intel.mock.*\<close> has been cached.
\<close>

definition catalogFoo :: metricCatalog where
  "catalogFoo = Add (Add newMetricCatalog fooV1) fooV2"

definition catalogQueried :: metricCatalog where
  "catalogQueried = catalogFoo\<lparr>mKeys := [(''intel.mock.*'', [''intel.mock.foo''])]\<rparr>"

definition fooV1Again :: metricType where
  "fooV1Again = fooV1\<lparr>lastAdvertisedTime := 11\<rparr>"


section \<open>Properties\<close>

subsection \<open>The key codec\<close>

lemma split_no_sep: "sep \<notin> set s \<Longrightarrow> strings_Split s sep = [s]"
  by (induction s) auto

lemma split_segment:
  "sep \<notin> set s \<Longrightarrow> strings_Split (s @ sep # r) sep = s # strings_Split r sep"
  by (induction s) auto

lemma join_split:
  "ns \<noteq> [] \<Longrightarrow> \<forall>seg \<in> set ns. c \<notin> set seg \<Longrightarrow>
     strings_Split (strings_Join ns [c]) c = ns"
proof (induction ns "[c]" rule: strings_Join.induct)
  case 1
  then show ?case by simp
next
  case (2 x)
  then show ?case by (simp add: split_no_sep)
next
  case (3 x y ys)
  then show ?case by (simp add: split_segment)
qed

text \<open>
  C7, as the code has it: for every non-empty namespace none of whose segments holds the
  separator \<open>.\<close>, \<open>getMetricKey\<close> followed by \<open>getMetricNamespace\<close> gives the
  namespace back.
\<close>

theorem key_roundtrip:
  "ns \<noteq> [] \<Longrightarrow> \<forall>seg \<in> set ns. CHR ''.'' \<notin> set seg \<Longrightarrow>
     getMetricNamespace (getMetricKey ns) = ns"
  unfolding getMetricNamespace_def getMetricKey_def by (rule join_split)

theorem key_roundtrip_witness:
  "getMetricNamespace (getMetricKey [''intel'', ''mock'', ''foo'']) =
     [''intel'', ''mock'', ''foo'']"
  using key_roundtrip [of "[''intel'', ''mock'', ''foo'']"] by simp

text \<open>
  C7 as stated fails for a segment that holds the separator: the one-segment namespace
  \<open>a.b\<close> comes back as the two segments \<open>a\<close> and \<open>b\<close>.
\<close>

theorem key_roundtrip_counterexample:
  "getMetricNamespace (getMetricKey [''a.b'']) \<noteq> [''a.b'']"
  by (simp add: getMetricNamespace_def getMetricKey_def)

subsection \<open>Subscription counting\<close>





subsection \<open>Validation\<close>




subsection \<open>The iterator\<close>

text \<open>
  C10: a new catalog has its cursor at zero, and \<open>Next\<close> puts it back to zero whenever
  it returns false. With the cursor at zero \<open>Item\<close> indexes the key list at \<open>-1\<close>
  and panics. \<open>Item\<close> returns a result exactly when the cursor is between one and the
  length of the key list, which is the case after a \<open>Next\<close> that returned true.
\<close>

theorem iterator_item_needs_next:
  "currentIter newMetricCatalog = 0 \<and>
   (\<not> fst (Next mc) \<longrightarrow> currentIter (snd (Next mc)) = 0) \<and>
   (currentIter mc = 0 \<longrightarrow> Item mc = Inl PanicIndexOutOfRange) \<and>
   ((\<exists>r. Item mc = Inr r) =
      (1 \<le> currentIter mc \<and> currentIter mc \<le> int (length (keys mc)))) \<and>
   (0 \<le> currentIter mc \<and> fst (Next mc) \<longrightarrow> (\<exists>r. Item (snd (Next mc)) = Inr r))"
  by (auto simp: newMetricCatalog_def Next_def Item_def Let_def)

theorem iterator_item_needs_next_witness:
  "Item newMetricCatalog = Inl PanicIndexOutOfRange \<and>
   currentIter (snd (Next newMetricCatalog)) = 0 \<and>
   (\<exists>r. Item (snd (Next (Add newMetricCatalog fooV1))) = Inr r)"
proof -
  have a: "\<not> fst (Next newMetricCatalog)" "currentIter newMetricCatalog = 0"
    by (simp_all add: Next_def newMetricCatalog_def)
  have b: "0 \<le> currentIter (Add newMetricCatalog fooV1) \<and> fst (Next (Add newMetricCatalog fooV1))"
    by (simp add: Next_def newMetricCatalog_def Add_def)
  show ?thesis
    using iterator_item_needs_next [of newMetricCatalog]
      iterator_item_needs_next [of "Add newMetricCatalog fooV1"] a b
    by simp
qed

subsection \<open>Version resolution\<close>








subsection \<open>Adding twice\<close>

lemma set_update_subset: "set (AList.update k v al) \<subseteq> insert (k, v) (set al)"
  by (induction al) auto

lemma wf_NewMTTrie: "wfMTTrie NewMTTrie"
  by (simp add: NewMTTrie_def)

lemma wf_childOf: "wfMTTrie t \<Longrightarrow> wfMTTrie (childOf t s)"
  by (cases t) (auto simp: childOf_def wf_NewMTTrie split: option.splits dest!: map_of_SomeD)

lemma wf_AddAt: "wfMTTrie t \<Longrightarrow> wfMTTrie (MTTrie_AddAt ns m t)"
proof (induction ns arbitrary: t)
  case Nil
  then show ?case
    using set_update_subset [of "Version m" m "mts t"]
    by (cases t) (auto simp: distinct_update)
next
  case (Cons s ss)
  have "wfMTTrie (MTTrie_AddAt ss m (childOf t s))"
    using Cons.prems by (intro Cons.IH wf_childOf)
  then show ?case
    using Cons.prems set_update_subset [of s "MTTrie_AddAt ss m (childOf t s)" "children t"]
    by (cases t) auto
qed

lemma wf_Add: "wfMTTrie (tree mc) \<Longrightarrow> wfMTTrie (tree (Add mc m))"
  by (simp add: Add_def MTTrie_Add_def wf_AddAt)

lemma wf_Remove: "wfMTTrie t \<Longrightarrow> wfMTTrie (MTTrie_Remove ns t)"
proof (induction ns arbitrary: t)
  case Nil
  then show ?case by (cases t) auto
next
  case (Cons s ss)
  show ?case
  proof (cases "map_of (children t) s")
    case None
    then show ?thesis using Cons.prems by simp
  next
    case (Some c)
    then have "wfMTTrie c" using Cons.prems by (cases t) (auto dest!: map_of_SomeD)
    then have "wfMTTrie (MTTrie_Remove ss c)" by (rule Cons.IH)
    then show ?thesis
      using Some Cons.prems set_update_subset [of s "MTTrie_Remove ss c" "children t"]
      by (cases t) auto
  qed
qed

lemma wf_DeleteByPlugin: "wfMTTrie t \<Longrightarrow> wfMTTrie (MTTrie_DeleteByPlugin lp t)"
proof (induction lp t rule: MTTrie_DeleteByPlugin.induct)
  case (1 lp vs cs)
  then show ?case by (auto simp: distinct_map_filter)
qed

lemma appendIfMissing_set: "set (appendIfMissing ks k) = insert k (set ks)"
  by (induction ks) auto

lemma appendIfMissing_distinct: "distinct ks \<Longrightarrow> distinct (appendIfMissing ks k)"
  by (induction ks) (auto simp: appendIfMissing_set)

lemma appendIfMissing_member: "k \<in> set ks \<Longrightarrow> appendIfMissing ks k = ks"
  by (induction ks) auto

lemma count_list_distinct: "distinct ks \<Longrightarrow> k \<in> set ks \<Longrightarrow> count_list ks k = 1"
  by (induction ks) auto

lemma childOf_update: "childOf (Node vs (AList.update s c cs)) s = c"
  by (simp add: childOf_def update_conv')

lemma AddAt_overwrites:
  "Version m2 = Version m1 \<Longrightarrow>
   MTTrie_AddAt ns m2 (MTTrie_AddAt ns m1 t) = MTTrie_AddAt ns m2 t"
  by (induction ns arbitrary: t) (simp_all add: childOf_update)

lemma find_NewMTTrie: "(case MTTrie_find NewMTTrie ss of None \<Rightarrow> [] | Some vs \<Rightarrow> vs) = []"
  by (cases ss) (simp_all add: NewMTTrie_def)

lemma find_AddAt:
  "MTTrie_find (MTTrie_AddAt ns m t) ns =
     Some (AList.update (Version m) m (case MTTrie_find t ns of None \<Rightarrow> [] | Some vs \<Rightarrow> vs))"
proof (induction ns arbitrary: t)
  case Nil
  then show ?case by simp
next
  case (Cons s ss)
  show ?case
  proof (cases "map_of (children t) s")
    case None
    then show ?thesis using Cons [of NewMTTrie]
      by (simp add: update_conv' childOf_def find_NewMTTrie)
  next
    case (Some c)
    then show ?thesis using Cons [of c] by (simp add: update_conv' childOf_def)
  qed
qed

lemma wf_find:
  "wfMTTrie t \<Longrightarrow> MTTrie_find t ns = Some vs \<Longrightarrow>
   distinct (map fst vs) \<and> (\<forall>ve \<in> set vs. fst ve = Version (snd ve))"
proof (induction ns arbitrary: t)
  case Nil
  then show ?case by (cases t) auto
next
  case (Cons s ss)
  then show ?case
    by (cases t) (fastforce split: option.splits dest: map_of_SomeD)
qed

lemma update_single_version:
  "distinct (map fst vs) \<Longrightarrow> \<forall>ve \<in> set vs. fst ve = Version (snd ve) \<Longrightarrow> Version m = v \<Longrightarrow>
   filter (\<lambda>e. Version e = v) (map snd (AList.update v m vs)) = [m]"
proof (induction vs)
  case Nil
  then show ?case by simp
next
  case (Cons a vs)
  show ?case
  proof (cases "fst a = v")
    case True
    with Cons.prems have "v \<notin> fst ` set vs" by auto
    with Cons.prems have "\<forall>ve \<in> set vs. Version (snd ve) \<noteq> v"
      by (metis imageI list.set_intros(2))
    then have "filter (\<lambda>e. Version e = v) (map snd vs) = []"
      by (auto simp: filter_empty_conv)
    with True Cons.prems show ?thesis by (cases a) simp
  next
    case False
    with Cons show ?thesis by (cases a) auto
  qed
qed

text \<open>
  C8: in a catalog whose trie is well formed and whose key list has no key twice, adding
  an entry and then a second entry of the same namespace, version and plugin leaves the
  catalog that adding the second entry alone leaves. The canonical key is in the key list
  once, and among the entries that the trie lists for the namespace exactly one has that
  version: the second entry.
\<close>

theorem add_idempotent:
  assumes "wfMTTrie (tree mc)" and "distinct (keys mc)"
    and "namespace m2 = namespace m1" and "version m2 = version m1" and "Plugin m2 = Plugin m1"
  shows "Add (Add mc m1) m2 = Add mc m2 \<and>
         count_list (keys (Add (Add mc m1) m2)) (getMetricKey (namespace m1)) = 1 \<and>
         (\<exists>ms. MTTrie_Get (tree (Add (Add mc m1) m2)) (namespace m1) = Inr ms \<and>
               filter (\<lambda>e. Version e = Version m1) ms = [m2])"
proof -
  have v: "Version m2 = Version m1" using assms by (simp add: Version_def)
  have same: "Add (Add mc m1) m2 = Add mc m2"
    using assms(3) v
    by (simp add: Add_def MTTrie_Add_def AddAt_overwrites appendIfMissing_member
        appendIfMissing_set)
  have "distinct (keys (Add mc m2))"
    using assms(2) by (simp add: Add_def appendIfMissing_distinct)
  moreover have "getMetricKey (namespace m1) \<in> set (keys (Add mc m2))"
    using assms(3) by (simp add: Add_def appendIfMissing_set)
  ultimately have cnt: "count_list (keys (Add mc m2)) (getMetricKey (namespace m1)) = 1"
    by (rule count_list_distinct)
  define vs where "vs = (case MTTrie_find (tree mc) (namespace m1) of None \<Rightarrow> [] | Some vs \<Rightarrow> vs)"
  have wf: "distinct (map fst vs) \<and> (\<forall>ve \<in> set vs. fst ve = Version (snd ve))"
    using wf_find [OF assms(1), of "namespace m1"] by (cases "MTTrie_find (tree mc) (namespace m1)") (simp_all add: vs_def)
  have f: "MTTrie_find (tree (Add mc m2)) (namespace m1) = Some (AList.update (Version m1) m2 vs)"
    using find_AddAt [of "namespace m2" m2 "tree mc"] assms(3) v
    by (simp add: Add_def MTTrie_Add_def vs_def)
  have "MTTrie_Get (tree (Add mc m2)) (namespace m1) = Inr (map snd (AList.update (Version m1) m2 vs))"
    using f by (simp add: MTTrie_Get_def)
  moreover have "filter (\<lambda>e. Version e = Version m1) (map snd (AList.update (Version m1) m2 vs)) = [m2]"
    using wf v by (intro update_single_version) auto
  ultimately show ?thesis using same cnt by simp
qed

theorem add_idempotent_witness:
  "Add (Add newMetricCatalog fooV1) fooV1Again = Add newMetricCatalog fooV1Again \<and>
   count_list (keys (Add (Add newMetricCatalog fooV1) fooV1Again))
     (getMetricKey (namespace fooV1)) = 1 \<and>
   (\<exists>ms. MTTrie_Get (tree (Add (Add newMetricCatalog fooV1) fooV1Again)) (namespace fooV1) =
           Inr ms \<and>
         filter (\<lambda>e. Version e = Version fooV1) ms = [fooV1Again])"
proof -
  have a: "wfMTTrie (tree newMetricCatalog)" "distinct (keys newMetricCatalog)"
    by (simp_all add: newMetricCatalog_def NewMTTrie_def)
  have b: "namespace fooV1Again = namespace fooV1" "version fooV1Again = version fooV1"
    "Plugin fooV1Again = Plugin fooV1"
    by (simp_all add: fooV1Again_def)
  show ?thesis by (rule add_idempotent [OF a b])
qed

subsection \<open>Wildcard queries\<close>

lemma queryExp_Nil: "queryExp [] = []"
  by (simp add: queryExp_def)

lemma queryExp_Cons:
  "queryExp (c # cs) =
     (if c = CHR ''.'' then ''[.]'' @ queryExp cs
      else if c = CHR ''*'' then ''.*'' @ queryExp cs
      else c # queryExp cs)"
  by (simp add: queryExp_def)

lemma queryExp_no_dot_bracket:
  "queryExp cs @ ''$'' = d # e # rest \<Longrightarrow> \<not> (d = CHR ''.'' \<and> e = CHR '']'')"
  by (cases cs) (auto simp: queryExp_Nil queryExp_Cons split: if_splits)

lemma parseBody_queryExp:
  "parseBody (queryExp wkey @ ''$'') =
     (if plainQueryKey wkey then Some (wildcardRx wkey) else None)"
proof (induction wkey)
  case Nil
  then show ?case by (simp add: queryExp_Nil plainQueryKey_def wildcardRx_def)
next
  case (Cons c cs)
  have p: "plainQueryKey (x # cs) =
     ((x = CHR ''.'' \<or> x = CHR ''*'' \<or> x \<notin> set regexpMeta) \<and> plainQueryKey cs)" for x
    by (simp add: plainQueryKey_def)
  have w: "wildcardRx (x # cs) = (if x = CHR ''*'' then AnyStar else Lit x) # wildcardRx cs" for x
    by (simp add: wildcardRx_def)
  consider (dot) "c = CHR ''.''" | (star) "c = CHR ''*''"
    | (bracket) "c = CHR ''[''" | (other) "c \<noteq> CHR ''.''" "c \<noteq> CHR ''*''" "c \<noteq> CHR ''[''"
    by blast
  then show ?case
  proof cases
    case dot
    then show ?thesis using Cons by (simp add: queryExp_Cons p w)
  next
    case star
    then show ?thesis using Cons by (simp add: queryExp_Cons p w)
  next
    case bracket
    have "parseBody (CHR ''['' # (queryExp cs @ ''$'')) = None"
      using queryExp_no_dot_bracket [of cs]
      by (auto split: list.splits)
    then show ?thesis using bracket by (simp add: queryExp_Cons p regexpMeta_def)
  next
    case other
    then show ?thesis using Cons by (auto simp: queryExp_Cons p w regexpMeta_def)
  qed
qed

lemma compile_query:
  "regexp_MustCompile (''^'' @ queryExp wkey @ ''$'') =
     (if plainQueryKey wkey then Some (wildcardRx wkey) else None)"
  using parseBody_queryExp [of wkey] by (simp add: regexp_MustCompile_def)








lemma matched_fold:
  "set (foldl (\<lambda>matched key. if P key then appendIfMissing matched key else matched) acc ks) =
     set acc \<union> {k \<in> set ks. P k}"
  by (induction ks arbitrary: acc) (auto simp: appendIfMissing_set)



lemma map_of_removeItem: "map_of (mKeys (removeItemFromMatchingMap mc wkey)) wkey = None"
  by (simp add: removeItemFromMatchingMap_def delete_conv')

lemma addItem_plain:
  "addItemToMatchingMap mc wkey = Some mc' \<Longrightarrow>
   plainQueryKey wkey \<and> keys mc' = keys mc \<and> tree mc' = tree mc \<and>
   (case map_of (mKeys mc') wkey of
      None \<Rightarrow> {k \<in> set (keys mc). rxMatch (wildcardRx wkey) k} = {}
    | Some ks \<Rightarrow> ks \<noteq> [] \<and> set ks = {k \<in> set (keys mc). rxMatch (wildcardRx wkey) k})"
proof -
  assume a: "addItemToMatchingMap mc wkey = Some mc'"
  have c: "regexp_MustCompile (''^'' @ queryExp wkey @ ''$'') =
      (if plainQueryKey wkey then Some (wildcardRx wkey) else None)"
    by (rule compile_query)
  from a c have pl: "plainQueryKey wkey"
    by (auto simp: addItemToMatchingMap_def queryExp_def Let_def split: option.splits if_splits)
  define matched where "matched =
    foldl (\<lambda>matched key. if rxMatch (wildcardRx wkey) key then appendIfMissing matched key
                           else matched) [] (keys mc)"
  have ms: "set matched = {k \<in> set (keys mc). rxMatch (wildcardRx wkey) k}"
    unfolding matched_def by (simp add: matched_fold)
  have mc': "mc' = (if length matched = 0 then removeItemFromMatchingMap mc wkey
                    else mc\<lparr>mKeys := AList.update wkey matched (mKeys mc)\<rparr>)"
    using a c pl unfolding addItemToMatchingMap_def queryExp_def matched_def Let_def
    by (auto split: if_splits)
  show ?thesis
  proof (cases "matched = []")
    case True
    then show ?thesis using pl ms mc'
      by (simp add: map_of_removeItem) (simp add: removeItemFromMatchingMap_def)
  next
    case False
    then show ?thesis using pl ms mc' by (simp add: update_conv')
  qed
qed




subsection \<open>The key list and the cache under removal\<close>

text \<open>
  Only \<open>Add\<close> writes the key list: it puts the key of the entry in, once. \<open>Remove\<close>
  and \<open>RmUnloadedPluginMetrics\<close> leave the list as it is.
\<close>

lemma Add_keys:
  "getMetricKey (namespace m) \<in> set (keys (Add mc m)) \<and>
   (distinct (keys mc) \<longrightarrow> distinct (keys (Add mc m)))"
  by (simp add: Add_def appendIfMissing_set appendIfMissing_distinct)

lemma removeMatchedKeyStep_keys: "keys (removeMatchedKeyStep key entry mc) = keys mc"
  by (simp add: removeMatchedKeyStep_def removeItemFromMatchingMap_def Let_def)

lemma removeMatchedKey_fold_keys: "keys (fold (removeMatchedKeyStep key) es mc) = keys mc"
  by (induction es arbitrary: mc) (simp_all add: removeMatchedKeyStep_keys)

lemma Remove_keys: "keys (Remove mc ns) = keys mc"
  by (simp add: Remove_def removeMatchedKey_def removeMatchedKey_fold_keys Let_def)

lemma updateMatchingMapLoop_keys:
  "updateMatchingMapLoop wkeys mc = Some mc' \<Longrightarrow> keys mc' = keys mc"
proof (induction wkeys arbitrary: mc)
  case Nil
  then show ?case by simp
next
  case (Cons wkey wkeys)
  then show ?case by (auto split: option.splits dest!: addItem_plain)
qed

lemma RmUnloadedPluginMetrics_keys:
  "RmUnloadedPluginMetrics mc lp = Some mc' \<Longrightarrow> keys mc' = keys mc"
  by (auto simp: RmUnloadedPluginMetrics_def updateMatchingMap_def
      dest!: updateMatchingMapLoop_keys)

lemma removeMatchedKeyStep_tree: "tree (removeMatchedKeyStep key entry mc) = tree mc"
  by (simp add: removeMatchedKeyStep_def removeItemFromMatchingMap_def Let_def)

lemma removeMatchedKey_fold_tree: "tree (fold (removeMatchedKeyStep key) es mc) = tree mc"
  by (induction es arbitrary: mc) (simp_all add: removeMatchedKeyStep_tree)

lemma Remove_tree: "tree (Remove mc ns) = MTTrie_Remove ns (tree mc)"
  by (simp add: Remove_def removeMatchedKey_def removeMatchedKey_fold_tree Let_def)

lemma updateMatchingMapLoop_tree:
  "updateMatchingMapLoop wkeys mc = Some mc' \<Longrightarrow> tree mc' = tree mc"
proof (induction wkeys arbitrary: mc)
  case Nil
  then show ?case by simp
next
  case (Cons wkey wkeys)
  then show ?case by (auto split: option.splits dest!: addItem_plain)
qed

lemma RmUnloadedPluginMetrics_tree:
  "RmUnloadedPluginMetrics mc lp = Some mc' \<Longrightarrow> tree mc' = MTTrie_DeleteByPlugin lp (tree mc)"
  by (auto simp: RmUnloadedPluginMetrics_def updateMatchingMap_def
      dest!: updateMatchingMapLoop_tree)

text \<open>
  The two conditions under which adding twice was proved hold in a new catalog and are
  kept by every operation that changes the trie or the key list.
\<close>

lemma catalog_invariant:
  "wfMTTrie (tree newMetricCatalog) \<and> distinct (keys newMetricCatalog)"
  "wfMTTrie (tree mc) \<and> distinct (keys mc) \<Longrightarrow>
     wfMTTrie (tree (Add mc m)) \<and> distinct (keys (Add mc m))"
  "wfMTTrie (tree mc) \<and> distinct (keys mc) \<Longrightarrow>
     wfMTTrie (tree (Remove mc ns)) \<and> distinct (keys (Remove mc ns))"
  "wfMTTrie (tree mc) \<and> distinct (keys mc) \<Longrightarrow> RmUnloadedPluginMetrics mc lp = Some mc' \<Longrightarrow>
     wfMTTrie (tree mc') \<and> distinct (keys mc')"
  by (simp_all add: newMetricCatalog_def wf_NewMTTrie wf_Add Add_keys Remove_tree Remove_keys
      wf_Remove RmUnloadedPluginMetrics_tree RmUnloadedPluginMetrics_keys wf_DeleteByPlugin)

text \<open>
  C2 at a failing input: with \<open>foo\<close> registered at versions 1 and 2 by one plugin,
  after \<open>Remove\<close> of the namespace, and likewise after \<open>RmUnloadedPluginMetrics\<close> of
  the plugin, no version of \<open>foo\<close> is registered and the key \<open>intel.mock.foo\<close> is
  still in the key list.
\<close>

theorem key_list_keeps_removed_keys:
  "GetVersions (Remove catalogFoo nsFoo) nsFoo = Inl (ErrorMetricNotFound nsFoo None) \<and>
   Keys (Remove catalogFoo nsFoo) = [''intel.mock.foo''] \<and>
   RmUnloadedPluginMetrics catalogFoo mockPlugin = Some (catalogFoo\<lparr>tree := NewMTTrie\<rparr>) \<and>
   GetVersions (catalogFoo\<lparr>tree := NewMTTrie\<rparr>) nsFoo = Inl (ErrorMetricNotFound nsFoo None) \<and>
   Keys (catalogFoo\<lparr>tree := NewMTTrie\<rparr>) = [''intel.mock.foo'']"
  by code_simp

text \<open>
  C1 at a failing input: with \<open>foo\<close> registered at versions 1 and 2 by one plugin and
  the query \<open>intel.mock.*\<close> cached by \<open>MatchQuery\<close>, after
  \<open>RmUnloadedPluginMetrics\<close> of the plugin no version of \<open>foo\<close> is registered, and
  \<open>GetQueriedNamespaces\<close> still returns the namespace of \<open>foo\<close> for the query: the
  cache was derived again from the key list, which still holds the key.
\<close>

theorem cache_stale_after_unload:
  "MatchQuery catalogFoo nsQuery = Some (Inr [nsFoo], catalogQueried) \<and>
   RmUnloadedPluginMetrics catalogQueried mockPlugin =
     Some (catalogQueried\<lparr>tree := NewMTTrie\<rparr>) \<and>
   GetVersions (catalogQueried\<lparr>tree := NewMTTrie\<rparr>) nsFoo =
     Inl (ErrorMetricNotFound nsFoo None) \<and>
   GetQueriedNamespaces (catalogQueried\<lparr>tree := NewMTTrie\<rparr>) nsQuery = Inr [nsFoo]"
  by code_simp

text \<open>
  \<open>Add\<close> does not touch the cache: a namespace registered after the query was cached
  is not among the namespaces that \<open>GetQueriedNamespaces\<close> returns for it.
\<close>

lemma cache_not_refreshed_by_Add:
  "GetVersions (Add catalogQueried barV1) nsBar = Inr [barV1] \<and>
   GetQueriedNamespaces (Add catalogQueried barV1) nsQuery = Inr [nsFoo]"
  by code_simp

end
